theory Spec2Isabelle
  imports Complex_Main "HOL-Library.Sublist" "HOL-Library.Multiset"
begin

chapter \<open>The job agent pipeline: model\<close>

section \<open>Python strings\<close>

text \<open>
  A Python \<open>str\<close> is a sequence of Unicode code points and \<open>len\<close> counts code points, so
  a string is modelled as a list of code points. \<open>ascii\<close> reads an ASCII literal.
\<close>

type_synonym pystr = "nat list"

definition ascii :: "string \<Rightarrow> pystr" where
  "ascii s = map of_char s"

text \<open>
  \<open>str.isspace\<close>, which \<open>str.strip()\<close> and the pattern \<open>\s\<close> both use: the Unicode
  whitespace code points.
\<close>

definition is_space :: "nat \<Rightarrow> bool" where
  "is_space c \<longleftrightarrow> c \<in> {9, 10, 11, 12, 13, 28, 29, 30, 31, 32, 133, 160, 5760, 8232, 8233, 8239, 8287, 12288}
     \<or> (8192 \<le> c \<and> c \<le> 8202)"

text \<open>\<open>s.strip()\<close> and \<open>s.strip(chars)\<close>: drop the matching characters at both ends.\<close>

definition strip_where :: "(nat \<Rightarrow> bool) \<Rightarrow> pystr \<Rightarrow> pystr" where
  "strip_where P s = rev (dropWhile P (rev (dropWhile P s)))"

definition py_strip :: "pystr \<Rightarrow> pystr" where
  "py_strip s = strip_where is_space s"

definition strip_chars :: "pystr \<Rightarrow> pystr \<Rightarrow> pystr" where
  "strip_chars cs s = strip_where (\<lambda>c. c \<in> set cs) s"

text \<open>\<open>sub in s\<close>: \<open>sub\<close> occurs in \<open>s\<close> as a contiguous substring.\<close>

fun py_in :: "pystr \<Rightarrow> pystr \<Rightarrow> bool" where
  "py_in sub [] = (sub = [])"
| "py_in sub (c # cs) = (prefix sub (c # cs) \<or> py_in sub cs)"

text \<open>
  The ASCII digits. Python's \<open>\d\<close> also matches the decimal digits of other scripts;
  those are not modelled.
\<close>

definition is_digit :: "nat \<Rightarrow> bool" where
  "is_digit c \<longleftrightarrow> 48 \<le> c \<and> c \<le> 57"

text \<open>
  \<open>s.lower()\<close>, as far as ASCII letters in the result go: the letters A to Z, the Kelvin
  sign (to \<open>k\<close>) and the dotted capital I (to \<open>i\<close> and a combining dot). Every other
  character has a lowercase form outside ASCII and is left as it is.
\<close>

definition lower_char :: "nat \<Rightarrow> pystr" where
  "lower_char c =
     (if 65 \<le> c \<and> c \<le> 90 then [c + 32]
      else if c = 8490 then [107]
      else if c = 304 then [105, 775]
      else [c])"

definition py_lower :: "pystr \<Rightarrow> pystr" where
  "py_lower s = concat (map lower_char s)"

text \<open>\<open>s.split(sep)\<close> for a separator of one character, and \<open>sep.join(xs)\<close>.\<close>

fun split_on :: "nat \<Rightarrow> pystr \<Rightarrow> pystr list" where
  "split_on sep [] = [[]]"
| "split_on sep (c # cs) =
     (if c = sep then [] # split_on sep cs
      else (case split_on sep cs of [] \<Rightarrow> [[c]] | x # xs \<Rightarrow> (c # x) # xs))"

fun py_join :: "pystr \<Rightarrow> pystr list \<Rightarrow> pystr" where
  "py_join sep [] = []"
| "py_join sep [x] = x"
| "py_join sep (x # y # ys) = x @ sep @ py_join sep (y # ys)"

section \<open>Job listings\<close>

text \<open>
  A listing is the dict the adapters build. The keys \<open>company\<close> and \<open>description\<close> are
  absent from the dicts of some adapters (\<open>None\<close>); every adapter sets the other keys.
\<close>

record job =
  title :: pystr
  company :: "pystr option"
  link :: pystr
  salary :: pystr
  summary :: pystr
  description :: "pystr option"
  source :: pystr

section \<open>Salary extraction\<close>

text \<open>
  \<open>extract_salary\<close> (job_agent_2.py) and the same search inside \<open>scrape_board\<close>
  (job_agent.py):
  \<^verbatim>\<open>
    m = re.search(
        r"\$[\d,]+(?:k)?(?:\s*[-\u2013]\s*\$?[\d,]+(?:k)?)?(?:\s*(?:USD|/yr|/year|annually))?",
        text, re.IGNORECASE)
    return m.group(0).strip() if m else ""
  \<close>
  where the character class of the dash holds the hyphen (45) and the en dash (8211).
  Every part after the first amount is optional and no two alternatives can start at the
  same character, so the backtracking matcher never has to give a character back: each
  function below takes what the greedy pattern takes and returns the rest of the text.
\<close>

text \<open>
  IGNORECASE for the letters of this pattern: a character matches a lowercase pattern
  letter when it folds to it; the Kelvin sign matches \<open>k\<close> and the long s matches \<open>s\<close>.
\<close>

definition is_amount_char :: "nat \<Rightarrow> bool" where
  "is_amount_char c \<longleftrightarrow> is_digit c \<or> c = 44"

definition ci_fold :: "nat \<Rightarrow> nat" where
  "ci_fold c = (if 65 \<le> c \<and> c \<le> 90 then c + 32 else if c = 8490 then 107 else if c = 383 then 115 else c)"

definition ci_prefix :: "string \<Rightarrow> pystr \<Rightarrow> bool" where
  "ci_prefix lit s \<longleftrightarrow> prefix (ascii lit) (map ci_fold s)"

definition match_amount :: "pystr \<Rightarrow> pystr option" where
  "match_amount s =
     (let rest = dropWhile is_amount_char s
      in if takeWhile is_amount_char s = [] then None
         else Some (if ci_prefix ''k'' rest then tl rest else rest))"

definition match_upper :: "pystr \<Rightarrow> pystr option" where
  "match_upper s =
     (let r1 = dropWhile is_space s
      in if \<not> (prefix [45] r1 \<or> prefix [8211] r1) then None
         else
           (let r2 = dropWhile is_space (tl r1);
                r3 = (if prefix [36] r2 then tl r2 else r2)
            in match_amount r3))"

definition match_unit :: "pystr \<Rightarrow> pystr option" where
  "match_unit s =
     (let r = dropWhile is_space s
      in if ci_prefix ''usd'' r then Some (drop 3 r)
         else if ci_prefix ''/yr'' r then Some (drop 3 r)
         else if ci_prefix ''/year'' r then Some (drop 5 r)
         else if ci_prefix ''annually'' r then Some (drop 8 r)
         else None)"

definition match_salary :: "pystr \<Rightarrow> pystr option" where
  "match_salary s =
     (if \<not> prefix [36] s then None
      else
        (case match_amount (tl s) of
           None \<Rightarrow> None
         | Some r1 \<Rightarrow>
             (let r2 = (case match_upper r1 of Some r \<Rightarrow> r | None \<Rightarrow> r1);
                  r3 = (case match_unit r2 of Some r \<Rightarrow> r | None \<Rightarrow> r2)
              in Some (take (length s - length r3) s))))"

fun search_salary :: "pystr \<Rightarrow> pystr option" where
  "search_salary [] = None"
| "search_salary (c # cs) =
     (case match_salary (c # cs) of Some m \<Rightarrow> Some m | None \<Rightarrow> search_salary cs)"

definition extract_salary :: "pystr \<Rightarrow> pystr" where
  "extract_salary text = (case search_salary text of Some m \<Rightarrow> py_strip m | None \<Rightarrow> [])"

section \<open>Recency filter\<close>










section \<open>Page-based adapters\<close>

text \<open>
  \<open>scrape_board\<close> (job_agent.py). The page is what the browser returns: the cards
  (\<open>None\<close> when \<open>goto\<close> or the query raises), each with its inner text (\<open>None\<close> when
  \<open>inner_text\<close> raises) and its first anchor (absent, raising, or with an optional
  \<open>href\<close>). An exception inside the loop body skips the card.
\<close>

record board =
  board_name :: pystr
  board_url :: pystr

datatype anchor = Anchor_raises | No_anchor | Anchor "pystr option"

record job_card =
  card_text :: "pystr option"
  card_anchor :: anchor

text \<open>
  \<^verbatim>\<open>
    link = ""
    if link_el:
        link = await link_el.get_attribute("href") or ""
        if link and not link.startswith("http"):
            base = board["url"].split("/")[0] + "//" + board["url"].split("/")[2]
            link = base + link
  \<close>
  \<open>None\<close> when a call raises (also the IndexError of a URL with fewer than three parts).
\<close>

definition card_link :: "board \<Rightarrow> job_card \<Rightarrow> pystr option" where
  "card_link board jc =
     (case card_anchor jc of
        Anchor_raises \<Rightarrow> None
      | No_anchor \<Rightarrow> Some []
      | Anchor href \<Rightarrow>
          (let link = (case href of None \<Rightarrow> [] | Some h \<Rightarrow> h)
           in if link \<noteq> [] \<and> \<not> prefix (ascii ''http'') link then
                (let parts = split_on 47 (board_url board)
                 in if length parts < 3 then None
                    else Some (parts ! 0 @ ascii ''//'' @ parts ! 2 @ link))
              else Some link))"

text \<open>
  \<^verbatim>\<open>
    seen_titles = set()
    for card in cards[:60]:
        text = (await card.inner_text()).strip()
        if len(text) < 10 or len(text) > 2000: continue
        ...
        lines = [l.strip() for l in text.split("\n") if l.strip()]
        if not lines: continue
        title = lines[0][:120]
        if title in seen_titles or len(title) < 5: continue
        seen_titles.add(title)
        ...
        jobs.append({"title": title, "link": link, "salary": salary,
                     "summary": " | ".join(lines[1:6]), "source": board["name"]})
  \<close>
\<close>

fun scrape_cards :: "board \<Rightarrow> job_card list \<Rightarrow> pystr set \<Rightarrow> job list \<Rightarrow> job list" where
  "scrape_cards board [] seen_titles jobs = jobs"
| "scrape_cards board (jc # rest) seen_titles jobs =
     (case card_text jc of
        None \<Rightarrow> scrape_cards board rest seen_titles jobs
      | Some inner_text \<Rightarrow>
          (let text = py_strip inner_text
           in if length text < 10 \<or> length text > 2000 then scrape_cards board rest seen_titles jobs
              else
                (case card_link board jc of
                   None \<Rightarrow> scrape_cards board rest seen_titles jobs
                 | Some card_url \<Rightarrow>
                     (case filter (\<lambda>l. l \<noteq> []) (map py_strip (split_on 10 text)) of
                        [] \<Rightarrow> scrape_cards board rest seen_titles jobs
                      | first # others \<Rightarrow>
                          (let title = take 120 first
                           in if title \<in> seen_titles \<or> length title < 5
                              then scrape_cards board rest seen_titles jobs
                              else scrape_cards board rest (insert title seen_titles)
                                     (jobs @ [\<lparr>title = title, company = None, link = card_url,
                                        salary = extract_salary text,
                                        summary = py_join (ascii '' | '') (take 5 others),
                                        description = None, source = board_name board\<rparr>]))))))"

definition scrape_board :: "board \<Rightarrow> job_card list option \<Rightarrow> job list" where
  "scrape_board board cards =
     (case cards of None \<Rightarrow> [] | Some cs \<Rightarrow> scrape_cards board (take 60 cs) {} [])"

text \<open>
  \<open>scrape_workingnomads\<close> (job_agent_2.py). A query raises, finds nothing or finds an
  element; \<open>inner_text\<close> gives \<open>None\<close> when it raises.
\<close>

datatype 'a found = Raises | Absent | Present 'a

record title_element =
  title_text :: "pystr option"
  title_href :: "pystr found"

record job_item =
  title_el :: "title_element found"
  company_el :: "pystr option found"
  salary_el :: "pystr option found"

text \<open>
  \<^verbatim>\<open>
    def make_absolute(href, base_url):
        if not href: return ""
        if href.startswith("http"): return href
        domain = "/".join(base_url.split("/")[:3])
        return domain + href
  \<close>
\<close>

definition make_absolute :: "pystr \<Rightarrow> pystr \<Rightarrow> pystr" where
  "make_absolute href base_url =
     (if href = [] then []
      else if prefix (ascii ''http'') href then href
      else py_join (ascii ''/'') (take 3 (split_on 47 base_url)) @ href)"

definition workingnomads_url :: pystr where
  "workingnomads_url = ascii ''https://www.workingnomads.com/jobs?category=development''"

text \<open>
  \<open>(await el.inner_text()).strip() if el else ""\<close>, \<open>None\<close> when the query or
  \<open>inner_text\<close> raised.
\<close>

definition optional_text :: "pystr option found \<Rightarrow> pystr option" where
  "optional_text el =
     (case el of
        Raises \<Rightarrow> None
      | Absent \<Rightarrow> Some []
      | Present None \<Rightarrow> None
      | Present (Some inner_text) \<Rightarrow> Some (py_strip inner_text))"

text \<open>
  The loop body: \<open>None\<close> where the source continues with the next item (an exception, no
  title element, an empty title). No title is remembered from one item to the next.
\<close>

definition item_listing :: "job_item \<Rightarrow> job option" where
  "item_listing item =
     (case title_el item of
        Raises \<Rightarrow> None
      | Absent \<Rightarrow> None
      | Present el \<Rightarrow>
          (case title_text el of
             None \<Rightarrow> None
           | Some inner_text \<Rightarrow>
               (case title_href el of
                  Raises \<Rightarrow> None
                | href_attr \<Rightarrow>
                    (let title = py_strip inner_text;
                         href = (case href_attr of Present h \<Rightarrow> h | _ \<Rightarrow> [])
                     in if company_el item = Raises \<or> salary_el item = Raises then None
                        else
                          (case optional_text (company_el item) of
                             None \<Rightarrow> None
                           | Some company_text \<Rightarrow>
                               (case optional_text (salary_el item) of
                                  None \<Rightarrow> None
                                | Some salary_text \<Rightarrow>
                                    if title = [] then None
                                    else Some \<lparr>title = title, company = Some company_text,
                                           link = make_absolute href workingnomads_url,
                                           salary = salary_text, summary = company_text, description = None,
                                           source = ascii ''Working Nomads''\<rparr>))))))"

fun scrape_items :: "job_item list \<Rightarrow> job list \<Rightarrow> job list" where
  "scrape_items [] jobs = jobs"
| "scrape_items (item # rest) jobs =
     (case item_listing item of
        None \<Rightarrow> scrape_items rest jobs
      | Some job \<Rightarrow> scrape_items rest (jobs @ [job]))"

definition scrape_workingnomads :: "job_item list option \<Rightarrow> job list" where
  "scrape_workingnomads items = (case items of None \<Rightarrow> [] | Some its \<Rightarrow> scrape_items its [])"

section \<open>Deduplication by link\<close>

text \<open>
  The loop at the end of \<open>scrape_all_boards\<close> (job_agent_2.py) and the same loop in
  \<open>main\<close> (job_agent.py):
  \<^verbatim>\<open>
    seen = set(); unique = []
    for job in all_jobs:
        if job["link"] and job["link"] not in seen:
            seen.add(job["link"]); unique.append(job)
  \<close>
\<close>

fun dedup_loop :: "job list \<Rightarrow> pystr set \<Rightarrow> job list \<Rightarrow> job list" where
  "dedup_loop [] seen unique = unique"
| "dedup_loop (job # rest) seen unique =
     (if link job \<noteq> [] \<and> link job \<notin> seen
      then dedup_loop rest (insert (link job) seen) (unique @ [job])
      else dedup_loop rest seen unique)"

definition dedup_by_link :: "job list \<Rightarrow> job list" where
  "dedup_by_link all_jobs = dedup_loop all_jobs {} []"

section \<open>Detail fetcher\<close>

text \<open>
  The browser: \<open>goto\<close> gives the loaded page or raises (\<open>None\<close>); on a page,
  \<open>query_selector_all\<close> gives the matching elements in document order or raises; an
  element's \<open>inner_text\<close> gives its text or raises.
\<close>

type_synonym element = "pystr option"
type_synonym page = "pystr \<Rightarrow> element list option"
type_synonym browser = "pystr \<Rightarrow> page option"

text \<open>\<open>fetch_job_detail\<close> of job_agent_2.py: its selector tables and noise phrases.\<close>

definition source_selectors :: "pystr \<Rightarrow> pystr list" where
  "source_selectors src =
     (if src = ascii ''We Work Remotely'' then
        [ascii ''#job-listing'', ascii ''.listing-container > div:first-child'', ascii ''section.job'',
         ascii ''div.job'']
      else if src = ascii ''Remotive'' then
        [ascii ''.job-description'', ascii ''[class*='' @ [39] @ ascii ''JobDescription'' @ [39] @ ascii '']'',
         ascii ''article'']
      else if src = ascii ''Himalayas'' then
        [ascii ''[class*='' @ [39] @ ascii ''description'' @ [39] @ ascii '']'',
         ascii ''[class*='' @ [39] @ ascii ''JobDescription'' @ [39] @ ascii '']'', ascii ''article'']
      else if src = ascii ''Working Nomads'' then
        [ascii ''.job-description'', ascii ''article'', ascii ''main'']
      else [])"

definition generic_selectors :: "pystr list" where
  "generic_selectors =
     [ascii ''.job-description'', ascii ''#job-description'',
      ascii ''[class*='' @ [39] @ ascii ''job-description'' @ [39] @ ascii '']'',
      ascii ''[class*='' @ [39] @ ascii ''jobDescription'' @ [39] @ ascii '']'',
      ascii ''article'', ascii ''main'']"

definition noise_phrases :: "pystr list" where
  "noise_phrases =
     [ascii ''learn the skills employers are hiring for'', ascii ''powered by learnisa'',
      ascii ''related jobs'', ascii ''sign in to apply'', ascii ''create an account'']"

text \<open>
  \<^verbatim>\<open>
    for selector in selectors:
        try:
            els = await page.query_selector_all(selector)
            for el in els:
                text = (await el.inner_text()).strip()
                if len(text) < 150: continue
                text_lower = text.lower()
                if any(phrase in text_lower for phrase in noise_phrases): continue
                job["description"] = text[:3000]
                return job
        except Exception:
            continue
  \<close>
  An exception ends the elements of the selector at hand; the next selector is tried.
\<close>

fun first_accepted :: "element list \<Rightarrow> pystr option" where
  "first_accepted [] = None"
| "first_accepted (el # els) =
     (case el of
        None \<Rightarrow> None
      | Some inner_text \<Rightarrow>
          (let text = py_strip inner_text
           in if length text < 150 then first_accepted els
              else if list_ex (\<lambda>phrase. py_in phrase (py_lower text)) noise_phrases then first_accepted els
              else Some text))"

fun try_selectors :: "page \<Rightarrow> pystr list \<Rightarrow> pystr option" where
  "try_selectors page [] = None"
| "try_selectors page (selector # rest) =
     (case page selector of
        None \<Rightarrow> try_selectors page rest
      | Some els \<Rightarrow>
          (case first_accepted els of
             Some text \<Rightarrow> Some text
           | None \<Rightarrow> try_selectors page rest))"

text \<open>
  \<^verbatim>\<open>
    if job.get("description") and len(job["description"]) > 200: return job
    if not job.get("link"): return job
    try:
        await page.goto(job["link"], ...)
        selectors = source_selectors.get(source, []) + generic_selectors
        ...
    except Exception: pass
    return job
  \<close>
\<close>

definition fetch_job_detail :: "browser \<Rightarrow> job \<Rightarrow> job" where
  "fetch_job_detail goto job =
     (if (case description job of None \<Rightarrow> False | Some d \<Rightarrow> d \<noteq> [] \<and> length d > 200) then job
      else if link job = [] then job
      else
        (case goto (link job) of
           None \<Rightarrow> job
         | Some page \<Rightarrow>
             (case try_selectors page (source_selectors (source job) @ generic_selectors) of
                Some text \<Rightarrow> job\<lparr>description := Some (take 3000 text)\<rparr>
              | None \<Rightarrow> job)))"

text \<open>
  \<open>fetch_job_detail\<close> of job_agent.py (here \<open>fetch_job_detail_v1\<close>):
  \<^verbatim>\<open>
    if not job.get("link"): return job
    try:
        await page.goto(job["link"], ...)
        for selector in ["[class*='description']", "[class*='content']", "article", "main", "body"]:
            el = await page.query_selector(selector)
            if el:
                text = (await el.inner_text()).strip()
                if len(text) > 200:
                    job["description"] = text[:3000]
                    break
    except Exception: pass
    return job
  \<close>
  \<open>query_selector\<close> gives the first matching element; any exception ends the fetch.
\<close>

definition selectors_v1 :: "pystr list" where
  "selectors_v1 =
     [ascii ''[class*='' @ [39] @ ascii ''description'' @ [39] @ ascii '']'',
      ascii ''[class*='' @ [39] @ ascii ''content'' @ [39] @ ascii '']'',
      ascii ''article'', ascii ''main'', ascii ''body'']"

fun try_selectors_v1 :: "page \<Rightarrow> pystr list \<Rightarrow> pystr option" where
  "try_selectors_v1 page [] = None"
| "try_selectors_v1 page (selector # rest) =
     (case page selector of
        None \<Rightarrow> None
      | Some [] \<Rightarrow> try_selectors_v1 page rest
      | Some (el # _) \<Rightarrow>
          (case el of
             None \<Rightarrow> None
           | Some inner_text \<Rightarrow>
               (let text = py_strip inner_text
                in if length text > 200 then Some text else try_selectors_v1 page rest)))"

definition fetch_job_detail_v1 :: "browser \<Rightarrow> job \<Rightarrow> job" where
  "fetch_job_detail_v1 goto job =
     (if link job = [] then job
      else
        (case goto (link job) of
           None \<Rightarrow> job
         | Some page \<Rightarrow>
             (case try_selectors_v1 page selectors_v1 of
                Some text \<Rightarrow> job\<lparr>description := Some (take 3000 text)\<rparr>
              | None \<Rightarrow> job)))"

section \<open>JSON values\<close>

text \<open>
  The values \<open>json.loads\<close> returns: \<open>None\<close>, \<open>bool\<close>, \<open>int\<close>, \<open>str\<close>, \<open>list\<close> and
  \<open>dict\<close> (an association list read with \<open>map_of\<close>). \<open>JNull\<close> is also the \<open>None\<close> a
  function returns. Numbers with a fraction or an exponent (Python floats) are outside the
  model: the assessment's \<open>fit_score\<close> is an integer.
\<close>

datatype json = JNull | JBool bool | JInt int | JStr pystr | JArr "json list" | JObj "(pystr \<times> json) list"

text \<open>Truth value testing, as \<open>not x\<close> does it.\<close>

fun truthy :: "json \<Rightarrow> bool" where
  "truthy JNull = False"
| "truthy (JBool b) = b"
| "truthy (JInt n) = (n \<noteq> 0)"
| "truthy (JStr s) = (s \<noteq> [])"
| "truthy (JArr xs) = (xs \<noteq> [])"
| "truthy (JObj d) = (d \<noteq> [])"

text \<open>\<open>d.get(key, default)\<close>; \<open>d.get(key)\<close> is \<open>dict_get d key JNull\<close>.\<close>

definition dict_get :: "(pystr \<times> json) list \<Rightarrow> string \<Rightarrow> json \<Rightarrow> json" where
  "dict_get d key dflt = (case map_of d (ascii key) of None \<Rightarrow> dflt | Some v \<Rightarrow> v)"

section \<open>Scoring client\<close>

text \<open>
  \<^verbatim>\<open>re.sub(r"```(?:json)?", "", raw)\<close>: every leftmost, non-overlapping run of three
  backticks is removed, together with a directly following \<open>json\<close>.
\<close>

definition fence :: pystr where
  "fence = [96, 96, 96]"

fun re_sub_fence :: "pystr \<Rightarrow> pystr" where
  "re_sub_fence [] = []"
| "re_sub_fence (c # cs) =
     (if prefix (fence @ ascii ''json'') (c # cs) then re_sub_fence (drop 7 (c # cs))
      else if prefix fence (c # cs) then re_sub_fence (drop 3 (c # cs))
      else c # re_sub_fence cs)"

text \<open>
  \<^verbatim>\<open>
    if "```" in raw:
        raw = re.sub(r"```(?:json)?", "", raw).strip().strip("`")
  \<close>
\<close>

definition strip_fences :: "pystr \<Rightarrow> pystr" where
  "strip_fences raw = (if py_in fence raw then strip_chars [96] (py_strip (re_sub_fence raw)) else raw)"

text \<open>
  The text-generation endpoint is outside the program. \<open>requests.post\<close> either raises or
  returns a reply with a body; the service is a function of the number of requests made so
  far and of the listing the prompt was built from. \<open>Response.json()\<close> and \<open>json.loads\<close>
  are the library's parser, a parameter \<open>loads\<close> that answers \<open>None\<close> where the parser
  raises.
\<close>

datatype http_error = ConnectionError | Timeout

type_synonym service = "nat \<Rightarrow> job \<Rightarrow> http_error + pystr"

type_synonym loader = "pystr \<Rightarrow> json option"

text \<open>
  \<^verbatim>\<open>
    raw = response.json()["response"].strip()
    if "```" in raw: ...
    result = json.loads(raw)
    return result
  \<close>
  inside \<open>try\<close>: a body that is not JSON, a reply that is not a dict or has no
  \<open>"response"\<close> key (KeyError, TypeError), a \<open>"response"\<close> that is not a string
  (AttributeError on \<open>.strip()\<close>) and a generated text that is not JSON all end in the
  \<open>except\<close> branch, which returns \<open>None\<close>.
\<close>

definition parse_generated :: "loader \<Rightarrow> pystr \<Rightarrow> json option" where
  "parse_generated loads response = loads (strip_fences (py_strip response))"

definition parse_reply :: "loader \<Rightarrow> pystr \<Rightarrow> json" where
  "parse_reply loads body =
     (case loads body of
        None \<Rightarrow> JNull
      | Some (JObj d) \<Rightarrow>
          (case map_of d (ascii ''response'') of
             Some (JStr response) \<Rightarrow>
               (case parse_generated loads response of None \<Rightarrow> JNull | Some result \<Rightarrow> result)
           | _ \<Rightarrow> JNull)
      | Some _ \<Rightarrow> JNull)"

text \<open>
  \<open>score_job_with_ollama\<close>: one \<open>requests.post\<close>, no loop around it. The state is the
  number of requests made; the function returns the analysis and the new count.
\<close>

definition score_job_with_ollama :: "service \<Rightarrow> loader \<Rightarrow> job \<Rightarrow> nat \<Rightarrow> json \<times> nat" where
  "score_job_with_ollama post loads job calls =
     (case post calls job of
        Inl e \<Rightarrow> (JNull, Suc calls)
      | Inr body \<Rightarrow> (parse_reply loads body, Suc calls))"

section \<open>Filter and rank\<close>

text \<open>
  The scoring loop of \<open>main\<close> (the same in both files):
  \<^verbatim>\<open>
    for i, job in enumerate(unique_jobs):
        analysis = score_job_with_ollama(job)
        if not analysis: continue
        if not analysis.get("is_backend"): continue
        if not analysis.get("is_remote"): continue
        if analysis.get("fit_score", 0) < 5: continue
        scored.append((job, analysis))
    scored.sort(key=lambda x: x[1].get("fit_score", 0), reverse=True)
    top_10 = scored[:10]
  \<close>
  Nothing catches an exception here: \<open>.get\<close> on a value that is not a dict raises
  AttributeError, and \<open><\<close> between a value that is not a number and \<open>5\<close> raises TypeError.
\<close>

datatype py_error = AttributeError | TypeError

fun py_lt_int :: "json \<Rightarrow> int \<Rightarrow> py_error + bool" where
  "py_lt_int (JInt n) k = Inr (n < k)"
| "py_lt_int (JBool b) k = Inr ((if b then 1 else 0) < k)"
| "py_lt_int _ k = Inl TypeError"

text \<open>The four tests on one analysis: \<open>Inr True\<close> when the pair is appended.\<close>

fun admit :: "json \<Rightarrow> py_error + bool" where
  "admit (JObj d) =
     (if \<not> truthy (JObj d) then Inr False
      else if \<not> truthy (dict_get d ''is_backend'' JNull) then Inr False
      else if \<not> truthy (dict_get d ''is_remote'' JNull) then Inr False
      else (case py_lt_int (dict_get d ''fit_score'' (JInt 0)) 5 of
              Inl e \<Rightarrow> Inl e
            | Inr True \<Rightarrow> Inr False
            | Inr False \<Rightarrow> Inr True))"
| "admit analysis = (if \<not> truthy analysis then Inr False else Inl AttributeError)"

fun score_loop :: "service \<Rightarrow> loader \<Rightarrow> job list \<Rightarrow> nat \<Rightarrow> (job \<times> json) list
    \<Rightarrow> py_error + ((job \<times> json) list \<times> nat)" where
  "score_loop post loads [] calls scored = Inr (scored, calls)"
| "score_loop post loads (job # rest) calls scored =
     (case score_job_with_ollama post loads job calls of
        (analysis, calls') \<Rightarrow>
          (case admit analysis of
             Inl e \<Rightarrow> Inl e
           | Inr False \<Rightarrow> score_loop post loads rest calls' scored
           | Inr True \<Rightarrow> score_loop post loads rest calls' (scored @ [(job, analysis)])))"

text \<open>
  The sort key \<open>x[1].get("fit_score", 0)\<close>. Every analysis in \<open>scored\<close> has passed
  \<open>fit_score < 5\<close> without raising, so its key is a number (\<open>True\<close> and \<open>False\<close> count
  as 1 and 0); the last case is never reached. \<open>list.sort\<close> with \<open>reverse=True\<close> is stable,
  as \<open>sort_key\<close> on the negated key is.
\<close>

fun sort_key_of :: "json \<Rightarrow> int" where
  "sort_key_of (JObj d) =
     (case dict_get d ''fit_score'' (JInt 0) of JInt n \<Rightarrow> n | JBool b \<Rightarrow> (if b then 1 else 0) | _ \<Rightarrow> 0)"
| "sort_key_of _ = 0"

definition top_10 :: "(job \<times> json) list \<Rightarrow> (job \<times> json) list" where
  "top_10 scored = take 10 (sort_key (\<lambda>x. - sort_key_of (snd x)) scored)"

definition main_shortlist :: "service \<Rightarrow> loader \<Rightarrow> job list \<Rightarrow> py_error + (job \<times> json) list" where
  "main_shortlist post loads unique_jobs =
     (case score_loop post loads unique_jobs 0 [] of
        Inl e \<Rightarrow> Inl e
      | Inr (scored, calls) \<Rightarrow> Inr (top_10 scored))"

section \<open>The notions the properties are stated with\<close>

text \<open>
  Position \<open>i\<close> of a merged sequence holds the first occurrence of a non-empty link.
\<close>

definition first_of_link :: "job list \<Rightarrow> nat \<Rightarrow> bool" where
  "first_of_link js i \<longleftrightarrow> link (js ! i) \<noteq> [] \<and> (\<forall>k<i. link (js ! k) \<noteq> link (js ! i))"


fun field :: "json \<Rightarrow> string \<Rightarrow> json option" where
  "field (JObj d) key = map_of d (ascii key)"
| "field _ key = None"


definition fit_score :: "json \<Rightarrow> int" where
  "fit_score a = (case field a ''fit_score'' of Some (JInt s) \<Rightarrow> s | _ \<Rightarrow> 0)"




text \<open>
  A response wrapped in code-fence markers, with one whitespace character \<open>sep\<close> between
  the markers and the text; a JSON object text runs from an opening to a closing brace.
\<close>

definition fenced :: "nat \<Rightarrow> pystr \<Rightarrow> pystr" where
  "fenced sep x = fence @ ascii ''json'' @ [sep] @ x @ [sep] @ fence"

definition json_object_text :: "pystr \<Rightarrow> bool" where
  "json_object_text x \<longleftrightarrow> x \<noteq> [] \<and> hd x = 123 \<and> last x = 125"











text \<open>
  Detail extraction: a candidate text is acceptable when it has at least 150 characters
  and its lowercase form holds no noise phrase. The candidates are the stripped texts of
  the elements in the order the fetcher reads them. A listing needs detail when its
  description is missing or has at most 200 characters and it has a link.
\<close>

definition acceptable :: "pystr \<Rightarrow> bool" where
  "acceptable text \<longleftrightarrow> 150 \<le> length text \<and> (\<forall>phrase \<in> set noise_phrases. \<not> py_in phrase (py_lower text))"

fun candidates_of :: "element list \<Rightarrow> pystr list" where
  "candidates_of [] = []"
| "candidates_of (None # els) = []"
| "candidates_of (Some inner_text # els) = py_strip inner_text # candidates_of els"

definition candidates :: "page \<Rightarrow> pystr list \<Rightarrow> pystr list" where
  "candidates page selectors =
     concat (map (\<lambda>selector. case page selector of None \<Rightarrow> [] | Some els \<Rightarrow> candidates_of els) selectors)"

definition needs_detail :: "job \<Rightarrow> bool" where
  "needs_detail job \<longleftrightarrow> (case description job of None \<Rightarrow> True | Some d \<Rightarrow> length d \<le> 200) \<and> link job \<noteq> []"

section \<open>A parser for the examples\<close>

text \<open>
  The theorems hold for every parser \<open>loads\<close>. The examples run this one: Python's
  \<open>json.loads\<close> on JSON texts whose numbers are integers (it answers \<open>None\<close> on a number
  with a fraction or an exponent and on \<open>NaN\<close> and \<open>Infinity\<close>, which Python reads as
  floats). Later keys come first in an object's list, so \<open>map_of\<close> finds the last value of
  a repeated key, as the dict does.
\<close>

definition skip_ws :: "pystr \<Rightarrow> pystr" where
  "skip_ws s = dropWhile (\<lambda>c. c \<in> {32, 9, 10, 13}) s"

definition hex_digit :: "nat \<Rightarrow> nat option" where
  "hex_digit c =
     (if 48 \<le> c \<and> c \<le> 57 then Some (c - 48)
      else if 97 \<le> c \<and> c \<le> 102 then Some (c - 87)
      else if 65 \<le> c \<and> c \<le> 70 then Some (c - 55)
      else None)"

fun hex4 :: "pystr \<Rightarrow> nat option" where
  "hex4 (a # b # c # d # rest) =
     (case (hex_digit a, hex_digit b, hex_digit c, hex_digit d) of
        (Some h3, Some h2, Some h1, Some h0) \<Rightarrow> Some (((h3 * 16 + h2) * 16 + h1) * 16 + h0)
      | _ \<Rightarrow> None)"
| "hex4 _ = None"

definition simple_escape :: "nat \<Rightarrow> nat option" where
  "simple_escape e = map_of [(34, 34), (92, 92), (47, 47), (98, 8), (102, 12), (110, 10), (114, 13), (116, 9)] e"

fun scan_string :: "pystr \<Rightarrow> pystr \<Rightarrow> (pystr \<times> pystr) option" where
  "scan_string [] acc = None"
| "scan_string (c # cs) acc =
     (if c = 34 then Some (rev acc, cs)
      else if c = 92 then
        (case cs of
           [] \<Rightarrow> None
         | e # rest \<Rightarrow>
             (if e = 117 then
                (case hex4 rest of
                   None \<Rightarrow> None
                 | Some u \<Rightarrow>
                     (if 55296 \<le> u \<and> u < 56320 \<and> prefix [92, 117] (drop 4 rest) then
                        (case hex4 (drop 6 rest) of
                           Some lo \<Rightarrow>
                             (if 56320 \<le> lo \<and> lo < 57344
                              then scan_string (drop 10 rest) ((65536 + (u - 55296) * 1024 + (lo - 56320)) # acc)
                              else scan_string (drop 4 rest) (u # acc))
                         | None \<Rightarrow> scan_string (drop 4 rest) (u # acc))
                      else scan_string (drop 4 rest) (u # acc)))
              else (case simple_escape e of None \<Rightarrow> None | Some x \<Rightarrow> scan_string rest (x # acc))))
      else if c < 32 then None
      else scan_string cs (c # acc))"

definition digits_value :: "pystr \<Rightarrow> int" where
  "digits_value ds = foldl (\<lambda>a d. 10 * a + int (d - 48)) 0 ds"

definition scan_number :: "pystr \<Rightarrow> (json \<times> pystr) option" where
  "scan_number s =
     (let neg = prefix [45] s;
          s1 = (if neg then tl s else s);
          ds = (if prefix [48] s1 then [48] else takeWhile is_digit s1);
          rest = drop (length ds) s1;
          frac = (prefix [46] rest \<and> (case tl rest of [] \<Rightarrow> False | d # _ \<Rightarrow> is_digit d));
          e1 = (if prefix [101] rest \<or> prefix [69] rest then tl rest else []);
          e2 = (if prefix [43] e1 \<or> prefix [45] e1 then tl e1 else e1);
          expo = (case e2 of [] \<Rightarrow> False | d # _ \<Rightarrow> is_digit d)
      in if ds = [] \<or> frac \<or> expo then None
         else Some (JInt (if neg then - digits_value ds else digits_value ds), rest))"

fun parse_value :: "nat \<Rightarrow> pystr \<Rightarrow> (json \<times> pystr) option"
and parse_items :: "nat \<Rightarrow> json list \<Rightarrow> pystr \<Rightarrow> (json \<times> pystr) option"
and parse_members :: "nat \<Rightarrow> (pystr \<times> json) list \<Rightarrow> pystr \<Rightarrow> (json \<times> pystr) option" where
  "parse_value 0 s = None"
| "parse_value (Suc n) s =
     (if prefix [34] s then
        (case scan_string (tl s) [] of None \<Rightarrow> None | Some (str, rest) \<Rightarrow> Some (JStr str, rest))
      else if prefix [123] s then
        (let s1 = skip_ws (tl s)
         in if prefix [125] s1 then Some (JObj [], tl s1) else parse_members n [] s1)
      else if prefix [91] s then
        (let s1 = skip_ws (tl s)
         in if prefix [93] s1 then Some (JArr [], tl s1) else parse_items n [] s1)
      else if prefix (ascii ''null'') s then Some (JNull, drop 4 s)
      else if prefix (ascii ''true'') s then Some (JBool True, drop 4 s)
      else if prefix (ascii ''false'') s then Some (JBool False, drop 5 s)
      else scan_number s)"
| "parse_items 0 acc s = None"
| "parse_items (Suc n) acc s =
     (case parse_value n s of
        None \<Rightarrow> None
      | Some (v, rest) \<Rightarrow>
          (let r1 = skip_ws rest
           in if prefix [93] r1 then Some (JArr (rev (v # acc)), tl r1)
              else if prefix [44] r1 then parse_items n (v # acc) (skip_ws (tl r1))
              else None))"
| "parse_members 0 acc s = None"
| "parse_members (Suc n) acc s =
     (if \<not> prefix [34] s then None
      else
        (case scan_string (tl s) [] of
           None \<Rightarrow> None
         | Some (key, r1) \<Rightarrow>
             (let r2 = skip_ws r1
              in if \<not> prefix [58] r2 then None
                 else
                   (case parse_value n (skip_ws (tl r2)) of
                      None \<Rightarrow> None
                    | Some (v, r3) \<Rightarrow>
                        (let r4 = skip_ws r3
                         in if prefix [125] r4 then Some (JObj ((key, v) # acc), tl r4)
                            else if prefix [44] r4 then parse_members n ((key, v) # acc) (skip_ws (tl r4))
                            else None)))))"

definition json_loads :: loader where
  "json_loads s =
     (case parse_value (Suc (length s)) (skip_ws s) of
        None \<Rightarrow> None
      | Some (v, rest) \<Rightarrow> if skip_ws rest = [] then Some v else None)"

section \<open>Example inputs\<close>

definition ex_job :: "string \<Rightarrow> string \<Rightarrow> job" where
  "ex_job t l = \<lparr>title = ascii t, company = None, link = ascii l, salary = [], summary = [],
     description = None, source = []\<rparr>"

definition reply_body :: "pystr \<Rightarrow> pystr" where
  "reply_body generated = ascii ''{\"response\": \"''
     @ concat (map (\<lambda>c. if c = 34 \<or> c = 92 then [92, c] else [c]) generated) @ ascii ''\"}''"

definition verdict :: "string \<Rightarrow> string \<Rightarrow> string \<Rightarrow> pystr" where
  "verdict s b r = ascii ''{\"fit_score\": '' @ ascii s @ ascii '', \"is_backend\": '' @ ascii b
     @ ascii '', \"is_remote\": '' @ ascii r @ ascii ''}''"

definition assessment :: "int \<Rightarrow> bool \<Rightarrow> bool \<Rightarrow> json" where
  "assessment s b r = JObj [(ascii ''is_remote'', JBool r), (ascii ''is_backend'', JBool b),
     (ascii ''fit_score'', JInt s)]"

definition ex_service :: "(http_error + pystr) list \<Rightarrow> service" where
  "ex_service outcomes calls job = (if calls < length outcomes then outcomes ! calls else Inl ConnectionError)"

text \<open>
  Scores 9, 7, 5, 4, 8, where the 5 is not a backend role and the 4 is not remote.
\<close>

definition five_replies :: "(http_error + pystr) list" where
  "five_replies = [Inr (reply_body (verdict ''9'' ''true'' ''true'')),
     Inr (reply_body (verdict ''7'' ''true'' ''true'')),
     Inr (reply_body (verdict ''5'' ''false'' ''true'')),
     Inr (reply_body (verdict ''4'' ''true'' ''false'')),
     Inr (reply_body (verdict ''8'' ''true'' ''true''))]"

definition five_jobs :: "job list" where
  "five_jobs = [ex_job ''A'' ''a'', ex_job ''B'' ''b'', ex_job ''C'' ''c'', ex_job ''D'' ''d'', ex_job ''E'' ''e'']"


definition backticked :: pystr where
  "backticked = ascii ''{\"concern\": \"'' @ fence @ ascii ''\"}''"

definition plain_verdict :: pystr where
  "plain_verdict = ascii ''{\"fit_score\": 7}''"

definition noisy_text :: pystr where
  "noisy_text = ascii ''Related Jobs'' @ replicate 200 120"

definition clean_text :: pystr where
  "clean_text = replicate 150 120"

definition ex_page :: page where
  "ex_page selector = (if selector = ascii ''.job-description'' then Some [Some noisy_text, Some clean_text] else Some [])"

definition noisy_page :: page where
  "noisy_page selector = Some [Some noisy_text]"

definition ex_board :: board where
  "ex_board = \<lparr>board_name = ascii ''Remotive'', board_url = ascii ''https://remotive.com/remote-jobs/software-dev''\<rparr>"

definition ex_card :: "pystr \<Rightarrow> string \<Rightarrow> job_card" where
  "ex_card inner_text href = \<lparr>card_text = Some inner_text, card_anchor = Anchor (Some (ascii href))\<rparr>"

definition ex_cards :: "job_card list" where
  "ex_cards =
     [ex_card (ascii ''Backend Engineer'' @ [10] @ ascii ''Acme'' @ [10] @ ascii ''$90k'') ''/jobs/1'',
      ex_card (ascii ''Backend Engineer'' @ [10] @ ascii ''Other Co'') ''/jobs/2'',
      ex_card (ascii ''Jobs'' @ [10] @ ascii ''Browse all'') ''/jobs'']"

definition ex_item :: "string \<Rightarrow> string \<Rightarrow> job_item" where
  "ex_item t href = \<lparr>title_el = Present \<lparr>title_text = Some (ascii t), title_href = Present (ascii href)\<rparr>,
     company_el = Absent, salary_el = Absent\<rparr>"




chapter \<open>The job agent pipeline: properties\<close>

section \<open>Python strings\<close>

lemma py_in_prefix: "prefix sub s \<Longrightarrow> py_in sub s"
  by (cases s) auto

lemma py_in_set: "py_in sub s \<Longrightarrow> set sub \<subseteq> set s"
proof (induction s)
  case Nil
  then show ?case by simp
next
  case (Cons a s)
  from Cons.prems have "prefix sub (a # s) \<or> py_in sub s" by simp
  then show ?case
  proof
    assume "prefix sub (a # s)"
    then show ?thesis by (rule set_mono_prefix)
  next
    assume "py_in sub s"
    from Cons.IH[OF this] show ?thesis by auto
  qed
qed

lemma strip_where_pad:
  assumes "P sep"
  shows "strip_where P (sep # y @ [sep]) = strip_where P y"
proof (cases "\<forall>c \<in> set y. P c")
  case True
  then have 1: "dropWhile P y = []"
    by (simp add: dropWhile_eq_Nil_conv)
  from True assms have 2: "dropWhile P (sep # y @ [sep]) = []"
    by (auto simp: dropWhile_eq_Nil_conv dest: set_dropWhileD)
  show ?thesis unfolding strip_where_def 1 2 by simp
next
  case False
  then obtain c where "c \<in> set y" "\<not> P c" by blast
  then have "dropWhile P (y @ [sep]) = dropWhile P y @ [sep]"
    by (rule dropWhile_append1)
  then show ?thesis using assms by (simp add: strip_where_def)
qed

lemma strip_where_id:
  "s \<noteq> [] \<Longrightarrow> \<not> P (hd s) \<Longrightarrow> \<not> P (last s) \<Longrightarrow> strip_where P s = s"
proof -
  assume a: "s \<noteq> []" "\<not> P (hd s)" "\<not> P (last s)"
  then have 1: "dropWhile P s = s" by (cases s) auto
  have "rev s \<noteq> []" "\<not> P (hd (rev s))" using a by (auto simp: hd_rev)
  then have 2: "dropWhile P (rev s) = rev s" by (cases "rev s") auto
  show ?thesis by (simp add: strip_where_def 1 2)
qed

section \<open>Deduplication by link\<close>

lemma filter_upt_Suc:
  "filter P [0..<Suc n] = (if P 0 then [0] else []) @ map Suc (filter (\<lambda>i. P (Suc i)) [0..<n])"
proof -
  have "[0..<Suc n] = 0 # map Suc [0..<n]"
    by (simp add: upt_conv_Cons map_Suc_upt del: upt_Suc)
  then show ?thesis
    by (simp add: filter_map comp_def del: upt_Suc)
qed

lemma all_less_Suc_split: "(\<forall>k<Suc i. P k) \<longleftrightarrow> P 0 \<and> (\<forall>k<i. P (Suc k))"
  by (metis less_Suc_eq_0_disj)

lemma first_of_link_Suc:
  "first_of_link (a # rest) (Suc i) \<longleftrightarrow> link a \<noteq> link (rest ! i) \<and> first_of_link rest i"
  by (auto simp: first_of_link_def all_less_Suc_split)

lemma first_of_link_0: "first_of_link (a # rest) 0 \<longleftrightarrow> link a \<noteq> []"
  by (simp add: first_of_link_def)

lemma dedup_loop_index:
  "dedup_loop js seen unique =
     unique @ map (nth js) (filter (\<lambda>i. link (js ! i) \<notin> seen \<and> first_of_link js i) [0..<length js])"
proof (induction js arbitrary: seen unique)
  case Nil
  show ?case by simp
next
  case (Cons a rest)
  let ?Q = "\<lambda>s i. link (rest ! i) \<notin> s \<and> first_of_link rest i"
  have step: "map (nth (a # rest))
        (filter (\<lambda>i. link ((a # rest) ! i) \<notin> seen \<and> first_of_link (a # rest) i) [0..<length (a # rest)])
      = (if link a \<notin> seen \<and> link a \<noteq> [] then [a] else [])
        @ map (nth rest) (filter (\<lambda>i. link (rest ! i) \<notin> seen \<and> link a \<noteq> link (rest ! i)
              \<and> first_of_link rest i) [0..<length rest])"
    by (simp add: filter_upt_Suc first_of_link_Suc first_of_link_0 comp_def del: upt_Suc)
  show ?case
  proof (cases "link a \<noteq> [] \<and> link a \<notin> seen")
    case True
    have "filter (?Q (insert (link a) seen)) [0..<length rest]
        = filter (\<lambda>i. link (rest ! i) \<notin> seen \<and> link a \<noteq> link (rest ! i) \<and> first_of_link rest i)
            [0..<length rest]"
      by (rule filter_cong) auto
    with True show ?thesis
      unfolding step by (simp add: Cons.IH)
  next
    case False
    have "filter (?Q seen) [0..<length rest]
        = filter (\<lambda>i. link (rest ! i) \<notin> seen \<and> link a \<noteq> link (rest ! i) \<and> first_of_link rest i)
            [0..<length rest]"
      using False by (intro filter_cong) (auto simp: first_of_link_def)
    with False show ?thesis
      unfolding step by (auto simp add: Cons.IH)
  qed
qed

lemma dedup_loop_links:
  "set (map link (dedup_loop js seen unique)) = set (map link unique) \<union> (set (map link js) - seen - {[]})"
  by (induction js arbitrary: seen unique) auto

lemma dedup_loop_distinct:
  "distinct (map link unique) \<Longrightarrow> set (map link unique) \<subseteq> seen \<Longrightarrow>
   distinct (map link (dedup_loop js seen unique))"
proof (induction js arbitrary: seen unique)
  case Nil
  then show ?case by simp
next
  case (Cons a rest)
  show ?case
  proof (cases "link a \<noteq> [] \<and> link a \<notin> seen")
    case True
    have "distinct (map link (unique @ [a]))" "set (map link (unique @ [a])) \<subseteq> insert (link a) seen"
      using Cons.prems True by auto
    from Cons.IH[OF this] True show ?thesis by simp
  next
    case False
    with Cons.IH[OF Cons.prems] show ?thesis by auto
  qed
qed

text \<open>
  Claim C1. For every merged sequence \<open>js\<close> of listings, the deduplicated output is exactly
  the listings standing at the first occurrence of each non-empty link, in the order of
  those positions: its links are pairwise distinct, they are the non-empty links of \<open>js\<close>
  (so a listing with an empty link is dropped), and each kept listing is the first listing
  of \<open>js\<close> that carries its link.
\<close>

theorem dedup_by_link_first_occurrences:
  "dedup_by_link js = map (nth js) (filter (first_of_link js) [0..<length js])
   \<and> distinct (map link (dedup_by_link js))
   \<and> set (map link (dedup_by_link js)) = set (map link js) - {[]}
   \<and> (\<forall>j \<in> set (dedup_by_link js). find (\<lambda>x. link x = link j) js = Some j)"
proof -
  have eq: "dedup_by_link js = map (nth js) (filter (first_of_link js) [0..<length js])"
    by (simp add: dedup_by_link_def dedup_loop_index)
  have d: "distinct (map link (dedup_by_link js))"
    by (simp add: dedup_by_link_def dedup_loop_distinct)
  have s: "set (map link (dedup_by_link js)) = set (map link js) - {[]}"
    unfolding dedup_by_link_def dedup_loop_links by simp
  have f: "find (\<lambda>x. link x = link j) js = Some j" if "j \<in> set (dedup_by_link js)" for j
  proof -
    from that obtain i where i: "i < length js" "first_of_link js i" "j = js ! i"
      unfolding eq by auto
    then show ?thesis
      unfolding find_Some_iff first_of_link_def by (intro exI[of _ i]) auto
  qed
  from eq d s f show ?thesis by blast
qed

theorem dedup_by_link_first_occurrences_witness:
  "dedup_by_link [ex_job ''A'' ''u'', ex_job ''B'' [], ex_job ''C'' ''v'', ex_job ''D'' ''u'']
     = [ex_job ''A'' ''u'', ex_job ''C'' ''v'']
   \<and> find (\<lambda>x. link x = link (ex_job ''A'' ''u''))
        [ex_job ''A'' ''u'', ex_job ''B'' [], ex_job ''C'' ''v'', ex_job ''D'' ''u'']
      = Some (ex_job ''A'' ''u'')"
proof -
  let ?js = "[ex_job ''A'' ''u'', ex_job ''B'' [], ex_job ''C'' ''v'', ex_job ''D'' ''u'']"
  have out: "dedup_by_link ?js = [ex_job ''A'' ''u'', ex_job ''C'' ''v'']"
    by (simp add: dedup_by_link_def ex_job_def ascii_def)
  have "\<forall>j \<in> set (dedup_by_link ?js). find (\<lambda>x. link x = link j) ?js = Some j"
    using dedup_by_link_first_occurrences [of ?js] by blast
  with out show ?thesis by simp
qed

section \<open>Salary extraction\<close>

lemmas salary_eval = extract_salary_def match_salary_def match_amount_def match_upper_def match_unit_def
  py_strip_def strip_where_def Let_def ascii_def is_amount_char_def is_digit_def is_space_def
  ci_prefix_def ci_fold_def
























section \<open>Recency filter\<close>

lemma floor_days: "\<lfloor>(of_int d * 86400 :: real) / 86400\<rfloor> = d"
  by simp




section \<open>Page-based adapters\<close>

lemma scrape_cards_titles:
  "distinct (map title jobs) \<Longrightarrow> set (map title jobs) \<subseteq> seen \<Longrightarrow>
   \<forall>j \<in> set jobs. 5 \<le> length (title j) \<and> length (title j) \<le> 120 \<Longrightarrow>
   distinct (map title (scrape_cards board cards seen jobs))
   \<and> (\<forall>j \<in> set (scrape_cards board cards seen jobs). 5 \<le> length (title j) \<and> length (title j) \<le> 120)"
proof (induction cards arbitrary: seen jobs)
  case Nil
  then show ?case by simp
next
  case (Cons jc rest)
  note skip = Cons.IH[OF Cons.prems]
  show ?case
  proof (cases "card_text jc")
    case None
    with skip show ?thesis by simp
  next
    case (Some inner_text)
    define body where "body = py_strip inner_text"
    show ?thesis
    proof (cases "length body < 10 \<or> length body > 2000")
      case True
      with skip Some show ?thesis by (simp add: body_def)
    next
      case len: False
      show ?thesis
      proof (cases "card_link board jc")
        case None
        with skip Some len show ?thesis by (simp add: body_def)
      next
        case link: (Some card_url)
        show ?thesis
        proof (cases "filter (\<lambda>l. l \<noteq> []) (map py_strip (split_on 10 body))")
          case Nil
          with skip Some len link show ?thesis by (simp add: body_def)
        next
          case lines: (Cons first others)
          define t where "t = take 120 first"
          show ?thesis
          proof (cases "t \<in> seen \<or> length t < 5")
            case True
            with skip Some len link lines show ?thesis by (simp add: body_def t_def)
          next
            case False
            define j where "j = \<lparr>title = t, company = None, link = card_url, salary = extract_salary body,
                summary = py_join (ascii '' | '') (take 5 others), description = None,
                source = board_name board\<rparr>"
            have 1: "distinct (map title (jobs @ [j]))"
              using Cons.prems False by (auto simp: j_def)
            have 2: "set (map title (jobs @ [j])) \<subseteq> insert t seen"
              using Cons.prems by (auto simp: j_def)
            have 3: "\<forall>x \<in> set (jobs @ [j]). 5 \<le> length (title x) \<and> length (title x) \<le> 120"
              using Cons.prems False by (auto simp: j_def t_def)
            from Cons.IH[OF 1 2 3] Some len link lines False show ?thesis
              by (simp add: body_def[symmetric] t_def[symmetric] j_def)
          qed
        qed
      qed
    qed
  qed
qed

text \<open>
  Claim C9, amended to \<open>scrape_board\<close>. A card whose title has fewer than 5 characters
  or was already emitted in the run is skipped: the titles of the output are pairwise
  distinct, each of 5 to 120 characters.
\<close>

theorem scrape_board_distinct_titles:
  "distinct (map title (scrape_board board cards))
   \<and> (\<forall>j \<in> set (scrape_board board cards). 5 \<le> length (title j) \<and> length (title j) \<le> 120)"
proof (cases cards)
  case None
  then show ?thesis by (simp add: scrape_board_def)
next
  case (Some cs)
  have "distinct (map title (scrape_cards board (take 60 cs) {} []))
     \<and> (\<forall>j \<in> set (scrape_cards board (take 60 cs) {} []). 5 \<le> length (title j) \<and> length (title j) \<le> 120)"
    by (rule scrape_cards_titles) simp_all
  with Some show ?thesis by (simp add: scrape_board_def)
qed

theorem scrape_board_distinct_titles_witness:
  "scrape_board ex_board (Some ex_cards) =
     [\<lparr>title = ascii ''Backend Engineer'', company = None, link = ascii ''https://remotive.com/jobs/1'',
       salary = ascii ''$90k'', summary = ascii ''Acme | $90k'', description = None,
       source = ascii ''Remotive''\<rparr>]
   \<and> 5 \<le> length (ascii ''Backend Engineer'')"
proof -
  have out: "scrape_board ex_board (Some ex_cards) =
     [\<lparr>title = ascii ''Backend Engineer'', company = None, link = ascii ''https://remotive.com/jobs/1'',
       salary = ascii ''$90k'', summary = ascii ''Acme | $90k'', description = None,
       source = ascii ''Remotive''\<rparr>]"
    by (simp add: scrape_board_def ex_cards_def ex_card_def ex_board_def card_link_def salary_eval)
  from scrape_board_distinct_titles[of ex_board "Some ex_cards"]
  have "\<forall>j \<in> set (scrape_board ex_board (Some ex_cards)). 5 \<le> length (title j)"
    by blast
  with out show ?thesis by simp
qed

text \<open>
  Claim C9 as it is written fails on \<open>scrape_workingnomads\<close>, which remembers no titles:
  two items with one title give two listings.
\<close>

theorem page_adapter_titles_counterexample:
  "map title (scrape_workingnomads (Some [ex_item ''Backend Engineer'' ''/jobs/1'',
       ex_item ''Backend Engineer'' ''/jobs/2'']))
     = [ascii ''Backend Engineer'', ascii ''Backend Engineer'']
   \<and> map link (scrape_workingnomads (Some [ex_item ''Backend Engineer'' ''/jobs/1'',
       ex_item ''Backend Engineer'' ''/jobs/2'']))
     = [ascii ''https://www.workingnomads.com/jobs/1'', ascii ''https://www.workingnomads.com/jobs/2'']
   \<and> \<not> distinct (map title (scrape_workingnomads (Some [ex_item ''Backend Engineer'' ''/jobs/1'',
       ex_item ''Backend Engineer'' ''/jobs/2''])))"
  by (simp add: scrape_workingnomads_def item_listing_def ex_item_def optional_text_def make_absolute_def
      workingnomads_url_def py_strip_def strip_where_def is_space_def ascii_def)

section \<open>Detail fetcher\<close>

lemma first_accepted_find: "first_accepted els = find acceptable (candidates_of els)"
proof (induction els)
  case Nil
  show ?case by simp
next
  case (Cons el els)
  show ?case
  proof (cases el)
    case None
    then show ?thesis by simp
  next
    case (Some t)
    then show ?thesis
      using Cons.IH by (auto simp: acceptable_def Let_def list_ex_iff)
  qed
qed

lemma find_append: "find P (xs @ ys) = (case find P xs of Some x \<Rightarrow> Some x | None \<Rightarrow> find P ys)"
  by (induction xs) auto

lemma try_selectors_find: "try_selectors page sels = find acceptable (candidates page sels)"
proof (induction sels)
  case Nil
  show ?case by (simp add: candidates_def)
next
  case (Cons sel sels)
  have c: "candidates page (sel # sels) =
      (case page sel of None \<Rightarrow> [] | Some els \<Rightarrow> candidates_of els) @ candidates page sels"
    by (simp add: candidates_def)
  show ?case
    unfolding c find_append using Cons.IH
    by (simp add: first_accepted_find split: option.splits)
qed

text \<open>
  Claim C5, amended to the fetcher of job_agent_2.py. When a listing needs detail and its
  page loads, the description becomes the first acceptable candidate (at least 150
  characters, no noise phrase in its lowercase form) in strategy order, cut to 3000
  characters, and nothing after it is read; when no candidate is acceptable the listing
  is unchanged. A listing that needs no detail, or whose page does not load, is unchanged.
\<close>

theorem detail_extraction_first_acceptable:
  "(needs_detail job \<and> goto (link job) = Some page \<longrightarrow>
      fetch_job_detail goto job =
        (case find acceptable (candidates page (source_selectors (source job) @ generic_selectors)) of
           None \<Rightarrow> job
         | Some text \<Rightarrow> job\<lparr>description := Some (take 3000 text)\<rparr>))
   \<and> (\<not> needs_detail job \<or> goto (link job) = None \<longrightarrow> fetch_job_detail goto job = job)"
  by (auto simp: fetch_job_detail_def needs_detail_def try_selectors_find split: option.splits)

lemma frame_v2:
  "fetch_job_detail goto job = job\<lparr>description := description (fetch_job_detail goto job)\<rparr>"
  by (simp add: fetch_job_detail_def split: option.splits)

lemma frame_v1:
  "fetch_job_detail_v1 goto job = job\<lparr>description := description (fetch_job_detail_v1 goto job)\<rparr>"
  by (simp add: fetch_job_detail_v1_def split: option.splits)

text \<open>
  Claim C8. Whatever the browser does, both fetchers return the listing with the same
  title, company, link, salary, summary and source.
\<close>

theorem fetch_job_detail_frame:
  "title (fetch_job_detail goto job) = title job \<and> company (fetch_job_detail goto job) = company job
   \<and> link (fetch_job_detail goto job) = link job \<and> salary (fetch_job_detail goto job) = salary job
   \<and> summary (fetch_job_detail goto job) = summary job \<and> source (fetch_job_detail goto job) = source job
   \<and> title (fetch_job_detail_v1 goto job) = title job \<and> company (fetch_job_detail_v1 goto job) = company job
   \<and> link (fetch_job_detail_v1 goto job) = link job \<and> salary (fetch_job_detail_v1 goto job) = salary job
   \<and> summary (fetch_job_detail_v1 goto job) = summary job \<and> source (fetch_job_detail_v1 goto job) = source job"
proof -
  obtain d2 where v2: "fetch_job_detail goto job = job\<lparr>description := d2\<rparr>"
    using frame_v2 by blast
  obtain d1 where v1: "fetch_job_detail_v1 goto job = job\<lparr>description := d1\<rparr>"
    using frame_v1 by blast
  show ?thesis unfolding v1 v2 by simp
qed

lemma clean_text_facts:
  "py_strip clean_text = clean_text" "length clean_text = 150" "acceptable clean_text"
proof -
  show s: "py_strip clean_text = clean_text"
    unfolding py_strip_def by (rule strip_where_id) (simp_all add: clean_text_def is_space_def)
  show "length clean_text = 150" by (simp add: clean_text_def)
  have low: "py_lower clean_text = clean_text"
    by (simp add: py_lower_def clean_text_def lower_char_def map_replicate_const)
  have "\<not> py_in phrase clean_text" if "phrase \<in> set noise_phrases" for phrase
  proof
    assume "py_in phrase clean_text"
    from py_in_set[OF this] have "set phrase \<subseteq> {120}" by (simp add: clean_text_def)
    with that show False by (auto simp: noise_phrases_def ascii_def)
  qed
  then show "acceptable clean_text"
    unfolding acceptable_def low by (simp add: clean_text_def)
qed

lemma noisy_text_facts:
  "py_strip noisy_text = noisy_text" "length noisy_text = 212" "\<not> acceptable noisy_text"
proof -
  show "py_strip noisy_text = noisy_text"
    unfolding py_strip_def by (rule strip_where_id) (simp_all add: noisy_text_def is_space_def ascii_def)
  show "length noisy_text = 212" by (simp add: noisy_text_def ascii_def)
  have "py_lower noisy_text = ascii ''related jobs'' @ py_lower (replicate 200 120)"
    by (simp add: py_lower_def noisy_text_def lower_char_def ascii_def)
  then have "py_in (ascii ''related jobs'') (py_lower noisy_text)"
    by (intro py_in_prefix) simp
  then show "\<not> acceptable noisy_text"
    by (auto simp: acceptable_def noise_phrases_def)
qed

theorem detail_extraction_first_acceptable_witness:
  "needs_detail (ex_job ''A'' ''u'') \<and> \<not> acceptable noisy_text \<and> acceptable clean_text
   \<and> candidates ex_page (source_selectors (source (ex_job ''A'' ''u'')) @ generic_selectors)
       = [noisy_text, clean_text]
   \<and> fetch_job_detail (\<lambda>url. Some ex_page) (ex_job ''A'' ''u'')
       = (ex_job ''A'' ''u'')\<lparr>description := Some clean_text\<rparr>"
proof -
  have need: "needs_detail (ex_job ''A'' ''u'')"
    by (simp add: needs_detail_def ex_job_def ascii_def)
  have cands: "candidates ex_page (source_selectors (source (ex_job ''A'' ''u'')) @ generic_selectors)
      = [noisy_text, clean_text]"
    by (simp add: candidates_def source_selectors_def generic_selectors_def ex_page_def ex_job_def
        ascii_def noisy_text_facts clean_text_facts)
  have found: "find acceptable [noisy_text, clean_text] = Some clean_text"
    by (simp add: noisy_text_facts clean_text_facts)
  have "take 3000 clean_text = clean_text"
    by (simp add: clean_text_facts)
  with detail_extraction_first_acceptable[of "ex_job ''A'' ''u''" "\<lambda>url. Some ex_page" ex_page]
    need cands found noisy_text_facts(3) clean_text_facts(3)
  show ?thesis by simp
qed

text \<open>
  Claim C5 as it is written fails on the fetcher of job_agent.py, which has no noise
  phrases: it accepts a text of more than 200 characters that holds one.
\<close>

theorem detail_extraction_counterexample:
  "length noisy_text > 200 \<and> \<not> acceptable noisy_text
   \<and> fetch_job_detail_v1 (\<lambda>url. Some noisy_page) (ex_job ''A'' ''u'')
       = (ex_job ''A'' ''u'')\<lparr>description := Some noisy_text\<rparr>"
proof -
  have "try_selectors_v1 noisy_page selectors_v1 = Some noisy_text"
    by (simp add: selectors_v1_def noisy_page_def noisy_text_facts)
  moreover have "take 3000 noisy_text = noisy_text"
    by (simp add: noisy_text_facts)
  moreover have "link (ex_job ''A'' ''u'') \<noteq> []"
    by (simp add: ex_job_def ascii_def)
  ultimately show ?thesis
    by (simp add: fetch_job_detail_v1_def noisy_text_facts)
qed

theorem fetch_job_detail_frame_witness:
  "title (fetch_job_detail (\<lambda>url. Some ex_page) (ex_job ''A'' ''u'')) = ascii ''A''
   \<and> link (fetch_job_detail_v1 (\<lambda>url. Some noisy_page) (ex_job ''A'' ''u'')) = ascii ''u''"
  using fetch_job_detail_frame[of "\<lambda>url. Some ex_page" "ex_job ''A'' ''u''"]
    fetch_job_detail_frame[of "\<lambda>url. Some noisy_page" "ex_job ''A'' ''u''"]
  by (simp add: ex_job_def)

section \<open>Scoring, filtering and ranking\<close>




lemma admit_JNull: "admit JNull = Inr False"
  by simp


lemma parse_reply_steps:
  assumes "loads body = Some (JObj [(ascii ''response'', JStr g)])"
    and "strip_fences (py_strip g) = g'" and "loads g' = Some a"
  shows "parse_reply loads body = a"
  using assms by (simp add: parse_reply_def parse_generated_def)

lemma verdict_clean:
  "strip_fences (py_strip (verdict ''9'' ''true'' ''true'')) = verdict ''9'' ''true'' ''true''"
  "strip_fences (py_strip (verdict ''7'' ''true'' ''true'')) = verdict ''7'' ''true'' ''true''"
  "strip_fences (py_strip (verdict ''5'' ''false'' ''true'')) = verdict ''5'' ''false'' ''true''"
  "strip_fences (py_strip (verdict ''4'' ''true'' ''false'')) = verdict ''4'' ''true'' ''false''"
  "strip_fences (py_strip (verdict ''8'' ''true'' ''true'')) = verdict ''8'' ''true'' ''true''"
  by (simp_all add: strip_fences_def py_strip_def strip_where_def verdict_def ascii_def is_space_def fence_def)

lemma verdict_loads:
  "json_loads (verdict ''9'' ''true'' ''true'') = Some (assessment 9 True True)"
  "json_loads (verdict ''7'' ''true'' ''true'') = Some (assessment 7 True True)"
  "json_loads (verdict ''5'' ''false'' ''true'') = Some (assessment 5 False True)"
  "json_loads (verdict ''4'' ''true'' ''false'') = Some (assessment 4 True False)"
  "json_loads (verdict ''8'' ''true'' ''true'') = Some (assessment 8 True True)"
  by code_simp+

lemma body_loads:
  "json_loads (reply_body (verdict ''9'' ''true'' ''true'')) = Some (JObj [(ascii ''response'', JStr (verdict ''9'' ''true'' ''true''))])"
  "json_loads (reply_body (verdict ''7'' ''true'' ''true'')) = Some (JObj [(ascii ''response'', JStr (verdict ''7'' ''true'' ''true''))])"
  "json_loads (reply_body (verdict ''5'' ''false'' ''true'')) = Some (JObj [(ascii ''response'', JStr (verdict ''5'' ''false'' ''true''))])"
  "json_loads (reply_body (verdict ''4'' ''true'' ''false'')) = Some (JObj [(ascii ''response'', JStr (verdict ''4'' ''true'' ''false''))])"
  "json_loads (reply_body (verdict ''8'' ''true'' ''true'')) = Some (JObj [(ascii ''response'', JStr (verdict ''8'' ''true'' ''true''))])"
  by code_simp+

lemma five_parsed:
  "parse_reply json_loads (reply_body (verdict ''9'' ''true'' ''true'')) = assessment 9 True True"
  "parse_reply json_loads (reply_body (verdict ''7'' ''true'' ''true'')) = assessment 7 True True"
  "parse_reply json_loads (reply_body (verdict ''5'' ''false'' ''true'')) = assessment 5 False True"
  "parse_reply json_loads (reply_body (verdict ''4'' ''true'' ''false'')) = assessment 4 True False"
  "parse_reply json_loads (reply_body (verdict ''8'' ''true'' ''true'')) = assessment 8 True True"
  by (rule parse_reply_steps[OF body_loads(1) verdict_clean(1) verdict_loads(1)]
           parse_reply_steps[OF body_loads(2) verdict_clean(2) verdict_loads(2)]
           parse_reply_steps[OF body_loads(3) verdict_clean(3) verdict_loads(3)]
           parse_reply_steps[OF body_loads(4) verdict_clean(4) verdict_loads(4)]
           parse_reply_steps[OF body_loads(5) verdict_clean(5) verdict_loads(5)])+


lemma admit_assessment_ex: "admit (assessment s b r) = Inr (b \<and> r \<and> 5 \<le> s)"
  by (auto simp: assessment_def dict_get_def ascii_def split: bool.splits)

lemma five_shortlist:
  "main_shortlist (ex_service five_replies) json_loads five_jobs =
     Inr [(ex_job ''A'' ''a'', assessment 9 True True), (ex_job ''E'' ''e'', assessment 8 True True),
          (ex_job ''B'' ''b'', assessment 7 True True)]"
proof -
  have "score_loop (ex_service five_replies) json_loads five_jobs 0 [] =
     Inr ([(ex_job ''A'' ''a'', assessment 9 True True), (ex_job ''B'' ''b'', assessment 7 True True),
           (ex_job ''E'' ''e'', assessment 8 True True)], 5)"
    by (simp add: five_jobs_def five_replies_def ex_service_def score_job_with_ollama_def five_parsed
          admit_assessment_ex)
  then show ?thesis
    by (simp add: main_shortlist_def top_10_def assessment_def dict_get_def ascii_def)
qed









lemma score_loop_scored_subset:
  "score_loop post loads jobs calls scored = Inr (scored', calls') \<Longrightarrow>
   p \<in> set scored' \<Longrightarrow> p \<in> set scored \<or> admit (snd p) = Inr True"
proof (induction jobs arbitrary: calls scored)
  case Nil
  then show ?case by simp
next
  case (Cons job rest)
  obtain a c where sc: "score_job_with_ollama post loads job calls = (a, c)"
    by (cases "score_job_with_ollama post loads job calls")
  show ?case
  proof (cases "admit a")
    case (Inl e)
    with Cons.prems sc show ?thesis by simp
  next
    case (Inr b)
    show ?thesis
    proof (cases b)
      case True
      with Cons.prems sc Inr have "score_loop post loads rest c (scored @ [(job, a)]) = Inr (scored', calls')"
        by simp
      from Cons.IH[OF this Cons.prems(2)] True Inr show ?thesis by auto
    next
      case False
      with Cons.prems sc Inr have "score_loop post loads rest c scored = Inr (scored', calls')"
        by simp
      from Cons.IH[OF this Cons.prems(2)] show ?thesis .
    qed
  qed
qed

lemma admit_True_fields:
  "admit (JObj d) = Inr True \<Longrightarrow>
     (\<exists>v. map_of d (ascii ''is_backend'') = Some v \<and> truthy v)
   \<and> (\<exists>v. map_of d (ascii ''is_remote'') = Some v \<and> truthy v)
   \<and> (\<exists>s. map_of d (ascii ''fit_score'') = Some (JInt s) \<and> 5 \<le> s)"
  by (auto simp: dict_get_def split: if_splits option.splits sum.splits bool.splits json.splits
      elim!: py_lt_int.elims)

text \<open>
  Claim C10. For an assessment object \<open>JObj d\<close>, the tests do not raise where a field is
  missing: without \<open>is_backend\<close> or \<open>is_remote\<close>, or with a falsy value there, the pair is
  rejected; without \<open>fit_score\<close> the score counts as 0, the pair is rejected and its sort
  key is 0, below every kept pair's. So a pair on the shortlist has all three fields.
\<close>

theorem incomplete_assessment_rejected:
  "(\<not> truthy (dict_get d ''is_backend'' JNull) \<or> \<not> truthy (dict_get d ''is_remote'' JNull)
      \<longrightarrow> admit (JObj d) = Inr False)
   \<and> (map_of d (ascii ''is_backend'') = None \<longrightarrow> admit (JObj d) = Inr False)
   \<and> (map_of d (ascii ''is_remote'') = None \<longrightarrow> admit (JObj d) = Inr False)
   \<and> (map_of d (ascii ''fit_score'') = None \<longrightarrow> admit (JObj d) = Inr False \<and> sort_key_of (JObj d) = 0)
   \<and> (main_shortlist post loads jobs = Inr shortlist \<and> (job, JObj d) \<in> set shortlist \<longrightarrow>
        map_of d (ascii ''is_backend'') \<noteq> None \<and> map_of d (ascii ''is_remote'') \<noteq> None
        \<and> map_of d (ascii ''fit_score'') \<noteq> None \<and> 5 \<le> sort_key_of (JObj d))"
proof -
  have 1: "admit (JObj d) = Inr False"
    if "\<not> truthy (dict_get d ''is_backend'' JNull) \<or> \<not> truthy (dict_get d ''is_remote'' JNull)"
    using that by auto
  have 2: "admit (JObj d) = Inr False" if "map_of d (ascii ''is_backend'') = None"
    using that by (simp add: dict_get_def)
  have 3: "admit (JObj d) = Inr False" if "map_of d (ascii ''is_remote'') = None"
    using that by (simp add: dict_get_def)
  have 4: "admit (JObj d) = Inr False \<and> sort_key_of (JObj d) = 0" if "map_of d (ascii ''fit_score'') = None"
    using that by (simp add: dict_get_def)
  have 5: "map_of d (ascii ''is_backend'') \<noteq> None \<and> map_of d (ascii ''is_remote'') \<noteq> None
        \<and> map_of d (ascii ''fit_score'') \<noteq> None \<and> 5 \<le> sort_key_of (JObj d)"
    if top: "main_shortlist post loads jobs = Inr shortlist" and mem: "(job, JObj d) \<in> set shortlist"
  proof -
    from top obtain scored calls where loop: "score_loop post loads jobs 0 [] = Inr (scored, calls)"
      and t: "shortlist = top_10 scored"
      by (auto simp: main_shortlist_def split: sum.splits)
    from mem t have "(job, JObj d) \<in> set scored"
      by (auto simp: top_10_def dest: in_set_takeD)
    with score_loop_scored_subset[OF loop] have "admit (JObj d) = Inr True" by fastforce
    from admit_True_fields[OF this] show ?thesis by (auto simp: dict_get_def)
  qed
  from 1 2 3 4 5 show ?thesis by blast
qed

theorem incomplete_assessment_rejected_witness:
  "admit (JObj [(ascii ''fit_score'', JInt 9), (ascii ''is_remote'', JBool True)]) = Inr False
   \<and> admit (JObj [(ascii ''is_backend'', JBool True), (ascii ''is_remote'', JBool True)]) = Inr False
   \<and> sort_key_of (JObj [(ascii ''is_backend'', JBool True), (ascii ''is_remote'', JBool True)]) = 0
   \<and> 5 \<le> sort_key_of (assessment 9 True True)"
proof -
  let ?d1 = "[(ascii ''fit_score'', JInt 9), (ascii ''is_remote'', JBool True)]"
  let ?d2 = "[(ascii ''is_backend'', JBool True), (ascii ''is_remote'', JBool True)]"
  let ?d3 = "[(ascii ''is_remote'', JBool True), (ascii ''is_backend'', JBool True),
          (ascii ''fit_score'', JInt 9)]"
  have a: "map_of ?d1 (ascii ''is_backend'') = None"
    by (simp add: ascii_def)
  have b: "map_of ?d2 (ascii ''fit_score'') = None"
    by (simp add: ascii_def)
  have c: "main_shortlist (ex_service five_replies) json_loads five_jobs =
       Inr [(ex_job ''A'' ''a'', assessment 9 True True), (ex_job ''E'' ''e'', assessment 8 True True),
            (ex_job ''B'' ''b'', assessment 7 True True)]
     \<and> (ex_job ''A'' ''a'', JObj ?d3)
       \<in> set [(ex_job ''A'' ''a'', assessment 9 True True), (ex_job ''E'' ''e'', assessment 8 True True),
            (ex_job ''B'' ''b'', assessment 7 True True)]"
    by (simp add: five_shortlist assessment_def)
  have w1: "admit (JObj ?d1) = Inr False"
    using incomplete_assessment_rejected[of ?d1] a by blast
  have w2: "admit (JObj ?d2) = Inr False \<and> sort_key_of (JObj ?d2) = 0"
    using incomplete_assessment_rejected[of ?d2] b by blast
  have w3: "5 \<le> sort_key_of (JObj ?d3)"
    using incomplete_assessment_rejected[of ?d3 "ex_service five_replies" json_loads five_jobs _ "ex_job ''A'' ''a''"] c
    by blast
  from w1 w2 w3 show ?thesis by (simp only: assessment_def)
qed









section \<open>Code fences\<close>

lemma fence_chars: "fence @ ascii ''json'' = [96, 96, 96, 106, 115, 111, 110]"
  by (simp add: fence_def ascii_def)

lemma prefix_append_other:
  "c \<notin> set p \<Longrightarrow> prefix p (x @ c # t) \<longleftrightarrow> prefix p x"
proof (induction p arbitrary: x)
  case Nil
  show ?case by simp
next
  case (Cons a p)
  then show ?case by (cases x) auto
qed

lemma re_sub_fence_append:
  assumes "c \<notin> set (fence @ ascii ''json'')"
  shows "re_sub_fence (x @ c # t) = re_sub_fence x @ c # re_sub_fence t"
proof (induction x rule: re_sub_fence.induct)
  case 1
  have "\<not> prefix (fence @ ascii ''json'') (c # t)" "\<not> prefix fence (c # t)"
    using assms by (auto simp: fence_chars fence_def)
  then show ?case by simp
next
  case (2 a cs)
  have c1: "c \<notin> set (fence @ ascii ''json'')" and c2: "c \<notin> set fence"
    using assms by auto
  have p1: "prefix (fence @ ascii ''json'') ((a # cs) @ c # t) \<longleftrightarrow> prefix (fence @ ascii ''json'') (a # cs)"
    by (rule prefix_append_other[OF c1])
  have p2: "prefix fence ((a # cs) @ c # t) \<longleftrightarrow> prefix fence (a # cs)"
    by (rule prefix_append_other[OF c2])
  show ?case
  proof (cases "prefix (fence @ ascii ''json'') (a # cs)")
    case True
    then have len: "7 \<le> length (a # cs)"
      using prefix_length_le[OF True] by (simp add: fence_chars)
    have "re_sub_fence ((a # cs) @ c # t) = re_sub_fence (drop 7 ((a # cs) @ c # t))"
      using True p1 by (simp del: drop_Cons_numeral)
    also have "drop 7 ((a # cs) @ c # t) = drop 7 (a # cs) @ c # t"
      using len by simp
    also have "re_sub_fence \<dots> = re_sub_fence (drop 7 (a # cs)) @ c # re_sub_fence t"
      using 2(1)[OF True] .
    also have "re_sub_fence (drop 7 (a # cs)) = re_sub_fence (a # cs)"
      using True by (simp del: drop_Cons_numeral)
    finally show ?thesis .
  next
    case F1: False
    show ?thesis
    proof (cases "prefix fence (a # cs)")
      case True
      then have len: "3 \<le> length (a # cs)"
        using prefix_length_le[OF True] by (simp add: fence_def)
      have "re_sub_fence ((a # cs) @ c # t) = re_sub_fence (drop 3 ((a # cs) @ c # t))"
        using True F1 p1 p2 by (simp del: drop_Cons_numeral)
      also have "drop 3 ((a # cs) @ c # t) = drop 3 (a # cs) @ c # t"
        using len by simp
      also have "re_sub_fence \<dots> = re_sub_fence (drop 3 (a # cs)) @ c # re_sub_fence t"
        using 2(2)[OF F1 True] .
      also have "re_sub_fence (drop 3 (a # cs)) = re_sub_fence (a # cs)"
        using True F1 by (simp del: drop_Cons_numeral)
      finally show ?thesis .
    next
      case False
      have "re_sub_fence ((a # cs) @ c # t) = a # re_sub_fence (cs @ c # t)"
        using False F1 p1 p2 by simp
      also have "\<dots> = (a # re_sub_fence cs) @ c # re_sub_fence t"
        using 2(3)[OF F1 False] by simp
      also have "a # re_sub_fence cs = re_sub_fence (a # cs)"
        using False F1 by simp
      finally show ?thesis .
    qed
  qed
qed

lemma re_sub_fence_no_fence: "\<not> py_in fence x \<Longrightarrow> re_sub_fence x = x"
proof (induction x)
  case Nil
  show ?case by simp
next
  case (Cons a x)
  from Cons.prems have nf: "\<not> prefix fence (a # x)" and rest: "\<not> py_in fence x"
    by auto
  from nf have "\<not> prefix (fence @ ascii ''json'') (a # x)"
    by (meson append_prefixD)
  with nf Cons.IH[OF rest] show ?case by simp
qed


lemma fenced_stripped:
  assumes "is_space sep"
  shows "strip_fences (py_strip (fenced sep x)) = strip_chars [96] (py_strip (re_sub_fence x))"
proof -
  have sep: "sep \<notin> set (fence @ ascii ''json'')"
    using assms by (auto simp: fence_chars is_space_def)
  have hd_last: "fenced sep x \<noteq> []" "hd (fenced sep x) = 96" "last (fenced sep x) = 96"
    by (simp_all add: fenced_def fence_def)
  have 1: "py_strip (fenced sep x) = fenced sep x"
    unfolding py_strip_def using hd_last by (intro strip_where_id) (simp_all add: is_space_def)
  have 2: "py_in fence (fenced sep x)"
    by (rule py_in_prefix) (simp add: fenced_def)
  have "re_sub_fence (fenced sep x) = re_sub_fence ([sep] @ x @ [sep] @ fence)"
    by (simp add: fenced_def fence_def ascii_def)
  also have "\<dots> = sep # re_sub_fence (x @ sep # fence)"
    using re_sub_fence_append[OF sep, of "[]" "x @ sep # fence"] by simp
  also have "re_sub_fence (x @ sep # fence) = re_sub_fence x @ sep # re_sub_fence fence"
    by (rule re_sub_fence_append[OF sep])
  also have "re_sub_fence fence = []"
    by (simp add: fence_def ascii_def)
  finally have 3: "re_sub_fence (fenced sep x) = sep # re_sub_fence x @ [sep]" .
  have "strip_fences (py_strip (fenced sep x)) = strip_chars [96] (py_strip (re_sub_fence (fenced sep x)))"
    unfolding 1 using 2 by (simp add: strip_fences_def)
  also have "py_strip (re_sub_fence (fenced sep x)) = py_strip (re_sub_fence x)"
    unfolding 3 py_strip_def using assms by (rule strip_where_pad)
  finally show ?thesis .
qed

text \<open>
  Claim C6, amended. For a JSON object text \<open>x\<close>, the wrapped response parses to what the
  scoring function makes of \<open>x\<close> itself; and when \<open>x\<close> holds no run of three backticks,
  that is what the parser makes of \<open>x\<close>.
\<close>

theorem fenced_response_parses:
  assumes "is_space sep" and "json_object_text x"
  shows "parse_generated loads (fenced sep x) = parse_generated loads x
     \<and> (\<not> py_in fence x \<longrightarrow> parse_generated loads (fenced sep x) = loads x)"
proof -
  from assms(2) have x: "x \<noteq> []" "hd x = 123" "last x = 125"
    by (simp_all add: json_object_text_def)
  have s: "py_strip x = x"
    unfolding py_strip_def using x by (intro strip_where_id) (simp_all add: is_space_def)
  have b: "strip_chars [96] x = x"
    unfolding strip_chars_def using x by (intro strip_where_id) simp_all
  have plain: "strip_fences (py_strip (fenced sep x)) = x" if "\<not> py_in fence x"
    using that by (simp add: fenced_stripped[OF assms(1)] re_sub_fence_no_fence s b)
  have same: "strip_fences (py_strip (fenced sep x)) = strip_fences (py_strip x)"
  proof (cases "py_in fence x")
    case True
    then have "strip_fences (py_strip x) = strip_chars [96] (py_strip (re_sub_fence x))"
      by (simp add: s strip_fences_def)
    then show ?thesis by (simp only: fenced_stripped[OF assms(1)])
  next
    case False
    then have "strip_fences (py_strip x) = x"
      by (simp add: s strip_fences_def)
    then show ?thesis by (simp only: plain[OF False])
  qed
  have "parse_generated loads (fenced sep x) = parse_generated loads x"
    by (simp only: parse_generated_def same)
  moreover have "parse_generated loads (fenced sep x) = loads x" if "\<not> py_in fence x"
    by (simp only: parse_generated_def plain[OF that])
  ultimately show ?thesis by blast
qed


lemma backticked_texts:
  "strip_fences (py_strip (fenced 10 backticked)) = ascii ''{\"concern\": \"\"}''"
  by (simp add: strip_fences_def py_strip_def strip_chars_def strip_where_def fenced_def backticked_def
      ascii_def is_space_def fence_def)

lemma backticked_loads:
  "json_loads (ascii ''{\"concern\": \"\"}'') = Some (JObj [(ascii ''concern'', JStr [])])"
  "json_loads backticked = Some (JObj [(ascii ''concern'', JStr fence)])"
  by code_simp+

text \<open>
  Claim C6 as it is written fails for an object text with three backticks inside a string:
  the substitution removes them too.
\<close>

theorem fenced_response_counterexample:
  "json_object_text backticked
   \<and> parse_generated json_loads (fenced 10 backticked) = Some (JObj [(ascii ''concern'', JStr [])])
   \<and> json_loads backticked = Some (JObj [(ascii ''concern'', JStr fence)])
   \<and> parse_generated json_loads (fenced 10 backticked) \<noteq> json_loads backticked"
proof -
  have "json_object_text backticked"
    by (simp add: json_object_text_def backticked_def ascii_def fence_def)
  moreover have "parse_generated json_loads (fenced 10 backticked) = Some (JObj [(ascii ''concern'', JStr [])])"
    by (simp only: parse_generated_def backticked_texts backticked_loads)
  moreover have "Some (JObj [(ascii ''concern'', JStr [])]) \<noteq> Some (JObj [(ascii ''concern'', JStr fence)])"
    by (simp add: fence_def)
  ultimately show ?thesis by (simp add: backticked_loads)
qed

theorem fenced_response_parses_witness:
  "is_space 32 \<and> json_object_text plain_verdict \<and> \<not> py_in fence plain_verdict
   \<and> parse_generated json_loads (fenced 32 plain_verdict) = Some (JObj [(ascii ''fit_score'', JInt 7)])"
proof -
  have sp: "is_space 32" by (simp add: is_space_def)
  have obj: "json_object_text plain_verdict"
    by (simp add: json_object_text_def plain_verdict_def ascii_def)
  have nf: "\<not> py_in fence plain_verdict"
    by (simp add: plain_verdict_def ascii_def fence_def)
  have loads: "json_loads plain_verdict = Some (JObj [(ascii ''fit_score'', JInt 7)])"
    by code_simp
  from fenced_response_parses[OF sp obj, of json_loads] nf
  have "parse_generated json_loads (fenced 32 plain_verdict) = json_loads plain_verdict"
    by blast
  with loads sp obj nf show ?thesis by simp
qed

end
